theory Spec2Isabelle
  imports Main "HOL-Library.Sublist"
begin

section \<open>The FAQ search handler of src/index.js\<close>

text \<open>
  The handler \<^verbatim>\<open>app.get('/faq/search')\<close> validates the query parameter, loads every
  article of the help center page by page, splits the query into search terms, scores
  each article against the terms, keeps the articles that match every term, sorts them
  by score, keeps the first ten and projects them to the public shape.

  Strings are lists of \<^typ>\<open>char\<close>, read as code units \<open>0..255\<close> (Latin-1): the
  model covers the strings whose characters all lie in that range.
\<close>

subsection \<open>Data\<close>

text \<open>
  An article as the content source delivers it. A field that is absent, \<^verbatim>\<open>null\<close> or
  \<^verbatim>\<open>undefined\<close> in the JSON is \<open>None\<close>.
\<close>

record article =
  id_a :: nat
  title :: "string option"
  body :: "string option"
  html_url :: "string option"

text \<open>One page of the listing: \<^verbatim>\<open>data.articles\<close> and \<^verbatim>\<open>data.next_page\<close>.\<close>

record page =
  articles :: "article list option"
  next_page :: "string option"

text \<open>
  What is thrown inside the handler's \<^verbatim>\<open>try\<close> block: a syntax error (by the
  constructor of a regular expression, by \<^verbatim>\<open>response.json()\<close> on a body that is not
  JSON), a type error (by \<^verbatim>\<open>fetch\<close> when the request fails, by the access to a
  field of \<^verbatim>\<open>null\<close>).
\<close>

datatype exn = SyntaxError | TypeError

text \<open>
  A response of \<^verbatim>\<open>fetch\<close>: the flag \<^verbatim>\<open>response.ok\<close>, the status, and what
  \<^verbatim>\<open>await response.json()\<close> gives (\<open>Inl\<close> when it rejects).
\<close>

record http_response =
  ok :: bool
  status :: nat
  json :: "exn + page"

text \<open>
  The content source: what \<^verbatim>\<open>await fetch(url)\<close> gives for each URL, \<open>Inl\<close> when
  the promise rejects.
\<close>

type_synonym content_source = "string \<Rightarrow> exn + http_response"

text \<open>
  The regular expression engine of the runtime, which is not code of this repository:
  \<open>rx p s\<close> stands for \<^verbatim>\<open>s.match(new RegExp(p))\<close>, \<open>Inl e\<close> when the constructor
  throws \<open>e\<close> and \<open>Inr b\<close> when the result is a match (\<open>b\<close> true) or \<^verbatim>\<open>null\<close>.
\<close>

type_synonym regexp_engine = "string \<Rightarrow> string \<Rightarrow> exn + bool"

text \<open>The element \<^verbatim>\<open>{ article, score, allTermsMatch }\<close> of the scoring pass.\<close>

record scored =
  article :: article
  score :: nat
  allTermsMatch :: bool

text \<open>The public shape \<^verbatim>\<open>{ id, title, body, html_url }\<close> of one result.\<close>

record result =
  id_r :: nat
  title_r :: "string option"
  body_r :: string
  html_url_r :: "string option"

text \<open>The query parameter \<^verbatim>\<open>req.query.q\<close>: absent, a string, or an array or object.\<close>

datatype query_param = Absent | QString string | QOther

datatype response =
    Status400
  | Status200 "result list" nat
  | Status500

datatype log_entry = ArticlesFetchError nat | FaqSearchError exn

text \<open>What one request leaves behind: the response, the console log, the URLs fetched.\<close>

record outcome =
  response :: response
  console :: "log_entry list"
  requests :: "string list"

subsection \<open>Strings\<close>

text \<open>
  \<^verbatim>\<open>String.prototype.toLowerCase\<close> on code units \<open>0..255\<close>: \<open>A..Z\<close> and the
  Latin-1 capitals \<open>0xC0..0xDE\<close> without the multiplication sign \<open>0xD7\<close> move up
  by 32.
\<close>

definition toLowerCase_char :: "char \<Rightarrow> char" where
  "toLowerCase_char c =
     (let n = (of_char c :: nat)
      in if (65 \<le> n \<and> n \<le> 90) \<or> (192 \<le> n \<and> n \<le> 222 \<and> n \<noteq> 215)
         then char_of (n + 32) else c)"

definition toLowerCase :: "string \<Rightarrow> string" where
  "toLowerCase s = map toLowerCase_char s"

text \<open>\<^verbatim>\<open>s.includes(t)\<close>: \<open>t\<close> occurs in \<open>s\<close> as a contiguous run.\<close>

fun includes_s :: "string \<Rightarrow> string \<Rightarrow> bool" where
  "includes_s [] t = (t = [])"
| "includes_s (c # s) t = (prefix t (c # s) \<or> includes_s s t)"

text \<open>The class \<^verbatim>\<open>\s\<close> on code units \<open>0..255\<close>: tab to carriage return, space, no-break space.\<close>

definition is_space :: "char \<Rightarrow> bool" where
  "is_space c = (let n = (of_char c :: nat) in (9 \<le> n \<and> n \<le> 13) \<or> n = 32 \<or> n = 160)"

text \<open>
  \<^verbatim>\<open>s.split(/\s+/)\<close>: the segments between the maximal runs of white space, the
  empty segments at both ends included.
\<close>

function split_ws :: "string \<Rightarrow> string list" where
  "split_ws [] = [[]]"
| "split_ws (c # cs) =
     (if is_space c then [] # split_ws (dropWhile is_space cs)
      else (case split_ws cs of [] \<Rightarrow> [[c]] | seg # segs \<Rightarrow> (c # seg) # segs))"
  by pat_completeness auto
termination
  by (relation "measure length") (auto simp: less_Suc_eq_le length_dropWhile_le)

text \<open>\<^verbatim>\<open>query.toLowerCase().split(/\s+/).filter(term => term.length > 0)\<close>\<close>

definition searchTerms :: "string \<Rightarrow> string list" where
  "searchTerms query = filter (\<lambda>term. length term > 0) (split_ws (toLowerCase query))"

text \<open>
  \<^verbatim>\<open>x || ''\<close> and \<^verbatim>\<open>x || []\<close>: an absent field counts as the empty string or the
  empty array; a string or an array that is there stays as it is.
\<close>

definition or_empty :: "'a list option \<Rightarrow> 'a list" where
  "or_empty f = (case f of None \<Rightarrow> [] | Some s \<Rightarrow> s)"

subsection \<open>Scoring one article\<close>

text \<open>The pattern \<^verbatim>\<open>`\\b${term}\\b`\<close>: backslash, \<open>b\<close>, the term as it is, backslash, \<open>b\<close>.\<close>

definition word_pattern :: "string \<Rightarrow> string" where
  "word_pattern term = [CHR 0x5C, CHR ''b''] @ term @ [CHR 0x5C, CHR ''b'']"

text \<open>
  The \<^verbatim>\<open>for (const term of searchTerms)\<close> loop, with the score reached so far. The
  result is the pair of \<^verbatim>\<open>score\<close> and \<^verbatim>\<open>allTermsMatch\<close> when the loop ends, by
  running out of terms or by \<^verbatim>\<open>break\<close>; a throw of the engine leaves the loop.
\<close>

fun score_terms :: "regexp_engine \<Rightarrow> string \<Rightarrow> string \<Rightarrow> string list \<Rightarrow> nat \<Rightarrow> exn + nat \<times> bool" where
  "score_terms rx title' body' [] score' = Inr (score', True)"
| "score_terms rx title' body' (term # terms) score' =
     (let titleMatch = includes_s title' term;
          bodyMatch = includes_s body' term
      in if \<not> titleMatch \<and> \<not> bodyMatch then Inr (score', False)
         else
           (let score1 = (if titleMatch then score' + 10 else score');
                score2 = (if bodyMatch then score1 + 1 else score1)
            in case rx (word_pattern term) title' of
                 Inl e \<Rightarrow> Inl e
               | Inr m \<Rightarrow> score_terms rx title' body' terms (if m then score2 + 5 else score2)))"

text \<open>The callback of the first \<^verbatim>\<open>.map\<close>.\<close>

definition score_article :: "regexp_engine \<Rightarrow> string list \<Rightarrow> article \<Rightarrow> exn + scored" where
  "score_article rx terms a =
     (case score_terms rx (toLowerCase (or_empty (title a))) (toLowerCase (or_empty (body a))) terms 0 of
        Inl e \<Rightarrow> Inl e
      | Inr (s, m) \<Rightarrow> Inr \<lparr>article = a, score = s, allTermsMatch = m\<rparr>)"

text \<open>The first \<^verbatim>\<open>.map\<close> over \<^verbatim>\<open>allArticles\<close>, in order; the first throw ends it.\<close>

fun score_all :: "regexp_engine \<Rightarrow> string list \<Rightarrow> article list \<Rightarrow> exn + scored list" where
  "score_all rx terms [] = Inr []"
| "score_all rx terms (a # as) =
     (case score_article rx terms a of
        Inl e \<Rightarrow> Inl e
      | Inr item \<Rightarrow> (case score_all rx terms as of Inl e \<Rightarrow> Inl e | Inr items \<Rightarrow> Inr (item # items)))"

subsection \<open>Filtering, sorting, truncating, projecting\<close>

text \<open>The callback of the last \<^verbatim>\<open>.map\<close>, with \<^verbatim>\<open>item.article.body || ''\<close>.\<close>

definition project :: "scored \<Rightarrow> result" where
  "project item =
     \<lparr>id_r = id_a (article item),
      title_r = title (article item),
      body_r = or_empty (body (article item)),
      html_url_r = html_url (article item)\<rparr>"

text \<open>
  \<^verbatim>\<open>.filter(item => item.allTermsMatch).sort((a, b) => b.score - a.score).slice(0, 10)\<close>.
  \<^verbatim>\<open>Array.prototype.sort\<close> is stable (ECMAScript 2019), and so is \<^const>\<open>sort_key\<close>;
  the comparator orders by falling score, the key \<open>- score\<close> by rising key.
\<close>

definition ranked :: "scored list \<Rightarrow> scored list" where
  "ranked items = take 10 (sort_key (\<lambda>item. - int (score item)) (filter allTermsMatch items))"

subsection \<open>Loading the articles\<close>

text \<open>The variables of the pagination loop, with the console log and the URLs fetched.\<close>

record loader =
  allArticles :: "article list"
  logged :: "log_entry list"
  fetched :: "string list"

text \<open>
  The loop \<^verbatim>\<open>while (nextPage)\<close>. A locator is falsy when it is absent or the empty
  string. The loop need not end (a source may hand out locators forever), so the
  result is \<open>None\<close> when it does not; otherwise it is the exception that left the
  loop, if any, and the variables at that point.
\<close>

partial_function (option) fetch_all ::
  "content_source \<Rightarrow> string option \<Rightarrow> loader \<Rightarrow> (exn option \<times> loader) option" where
  "fetch_all fetch nextPage st =
     (case nextPage of
        None \<Rightarrow> Some (None, st)
      | Some url \<Rightarrow>
          if url = [] then Some (None, st)
          else
            (let st1 = st\<lparr>fetched := fetched st @ [url]\<rparr>
             in case fetch url of
                  Inl e \<Rightarrow> Some (Some e, st1)
                | Inr resp \<Rightarrow>
                    if \<not> ok resp
                    then Some (None, st1\<lparr>logged := logged st1 @ [ArticlesFetchError (status resp)]\<rparr>)
                    else
                      (case json resp of
                         Inl e \<Rightarrow> Some (Some e, st1)
                       | Inr data \<Rightarrow>
                           fetch_all fetch (next_page data)
                             (st1\<lparr>allArticles := allArticles st1 @ or_empty (articles data)\<rparr>))))"

declare fetch_all.simps [code]

subsection \<open>The handler\<close>

definition first_page :: "string \<Rightarrow> string" where
  "first_page ZENDESK_B2B_URL = ZENDESK_B2B_URL @ ''/api/v2/help_center/en-gb/articles.json?per_page=100''"

text \<open>\<^verbatim>\<open>let allArticles = []\<close>, nothing logged and nothing fetched yet.\<close>

definition no_articles :: loader where
  "no_articles = \<lparr>allArticles = [], logged = [], fetched = []\<rparr>"

definition bad_request :: outcome where
  "bad_request = \<lparr>response = Status400, console = [], requests = []\<rparr>"

text \<open>
  The part of the handler after the loop: the terms, the scoring pass, the ranking and
  the response; a throw ends in the \<^verbatim>\<open>catch\<close> block, which logs it and answers 500.
\<close>

definition respond :: "regexp_engine \<Rightarrow> string \<Rightarrow> loader \<Rightarrow> outcome" where
  "respond rx query st =
     (case score_all rx (searchTerms query) (allArticles st) of
        Inl e \<Rightarrow>
          \<lparr>response = Status500, console = logged st @ [FaqSearchError e], requests = fetched st\<rparr>
      | Inr items \<Rightarrow>
          (let scoredResults = map project (ranked items)
           in \<lparr>response = Status200 scoredResults (length scoredResults),
               console = logged st, requests = fetched st\<rparr>))"

text \<open>
  \<^verbatim>\<open>app.get('/faq/search')\<close>. The result is \<open>None\<close> when the pagination loop does not
  end, so that no response is sent.
\<close>

definition faq_search ::
  "regexp_engine \<Rightarrow> content_source \<Rightarrow> string \<Rightarrow> query_param \<Rightarrow> outcome option" where
  "faq_search rx fetch ZENDESK_B2B_URL q =
     (case q of
        Absent \<Rightarrow> Some bad_request
      | QOther \<Rightarrow> Some bad_request
      | QString query \<Rightarrow>
          if query = [] then Some bad_request
          else
            (case fetch_all fetch (Some (first_page ZENDESK_B2B_URL)) no_articles of
               None \<Rightarrow> None
             | Some (Some e, st) \<Rightarrow>
                 Some \<lparr>response = Status500, console = logged st @ [FaqSearchError e],
                       requests = fetched st\<rparr>
             | Some (None, st) \<Rightarrow> Some (respond rx query st)))"

subsection \<open>A fragment of the runtime's regular expressions\<close>

text \<open>
  A model of \<^verbatim>\<open>s.match(new RegExp(p))\<close> for the patterns built from pattern
  characters, \<^verbatim>\<open>.\<close>, the escapes \<^verbatim>\<open>\b \B \d \D \w \W \s \S\<close> and the escaped
  syntax characters, the assertions \<^verbatim>\<open>^\<close> and \<^verbatim>\<open>$\<close>, the quantifiers
  \<^verbatim>\<open>* + ?\<close> (greedy or lazy) and the alternation \<^verbatim>\<open>|\<close>, without flags. Groups,
  classes in brackets, braces and the other escapes are outside the fragment: what the
  runtime does with a pattern that uses one is not modelled but taken as a parameter,
  the engine \<open>other\<close>, and what is proved of the engine is proved for every \<open>other\<close>.
\<close>

datatype cls = Digit | Wordchar | Space

datatype atom = Lit char | Dot | Cls bool cls

datatype quant = Once | Star | Plus | Opt

datatype piece = Bol | Eol | Boundary bool | Atom atom quant

definition is_digit :: "char \<Rightarrow> bool" where
  "is_digit c = (let n = (of_char c :: nat) in 48 \<le> n \<and> n \<le> 57)"

text \<open>The class \<^verbatim>\<open>\w\<close>: letters \<open>A..Z\<close>, \<open>a..z\<close>, digits and the underscore.\<close>

definition is_word :: "char \<Rightarrow> bool" where
  "is_word c =
     (let n = (of_char c :: nat)
      in (65 \<le> n \<and> n \<le> 90) \<or> (97 \<le> n \<and> n \<le> 122) \<or> (48 \<le> n \<and> n \<le> 57) \<or> n = 95)"

text \<open>The syntax characters \<^verbatim>\<open>^ $ \ . * + ? ( ) [ ] { } |\<close>.\<close>

definition syntax_char :: "char \<Rightarrow> bool" where
  "syntax_char c = (c \<in> set ''^$.*+?()[]{}|'' \<or> c = CHR 0x5C)"

text \<open>The optional quantifier at the head of the rest, and the number of characters it takes.\<close>

definition quantifier :: "string \<Rightarrow> quant \<times> nat" where
  "quantifier cs =
     (case cs of
        [] \<Rightarrow> (Once, 0)
      | q # r \<Rightarrow>
          (let lazy = (case r of [] \<Rightarrow> 0 | c # _ \<Rightarrow> if c = CHR ''?'' then 1 else 0)
           in if q = CHR ''*'' then (Star, 1 + lazy)
              else if q = CHR ''+'' then (Plus, 1 + lazy)
              else if q = CHR ''?'' then (Opt, 1 + lazy)
              else (Once, 0)))"

text \<open>The atom that an escape \<^verbatim>\<open>\d\<close> stands for, for the escapes of the fragment.\<close>

definition escape_atom :: "char \<Rightarrow> atom option" where
  "escape_atom d =
     (if d = CHR ''d'' then Some (Cls True Digit)
      else if d = CHR ''D'' then Some (Cls False Digit)
      else if d = CHR ''w'' then Some (Cls True Wordchar)
      else if d = CHR ''W'' then Some (Cls False Wordchar)
      else if d = CHR ''s'' then Some (Cls True Space)
      else if d = CHR ''S'' then Some (Cls False Space)
      else if syntax_char d \<or> d = CHR ''/'' then Some (Lit d)
      else None)"

text \<open>
  What the parser makes of a pattern: its alternatives, the exception that the
  constructor throws, or the finding that the pattern lies outside the fragment.
\<close>

datatype parsed = Pattern "piece list list" | Throws exn | Outside

definition cons_piece :: "piece \<Rightarrow> parsed \<Rightarrow> parsed" where
  "cons_piece p r =
     (case r of
        Pattern [] \<Rightarrow> Pattern [[p]]
      | Pattern (alt # alts) \<Rightarrow> Pattern ((p # alt) # alts)
      | Throws e \<Rightarrow> Throws e
      | Outside \<Rightarrow> Outside)"

definition new_alternative :: "parsed \<Rightarrow> parsed" where
  "new_alternative r =
     (case r of
        Pattern alts \<Rightarrow> Pattern ([] # alts)
      | Throws e \<Rightarrow> Throws e
      | Outside \<Rightarrow> Outside)"

text \<open>
  The pattern as its alternatives, each a sequence of assertions and quantified atoms,
  read from left to right up to the first character that ends the reading. A quantifier
  with nothing to repeat (at the start, after an assertion, after a quantifier), an
  unmatched \<^verbatim>\<open>)\<close> and a backslash at the end are syntax errors, whatever follows. An
  opening parenthesis, bracket or brace and an escape that is not listed above leave
  the fragment.
\<close>

function parse_pattern :: "string \<Rightarrow> parsed" where
  "parse_pattern [] = Pattern [[]]"
| "parse_pattern (c # cs) =
     (if c = CHR ''|'' then new_alternative (parse_pattern cs)
      else if c = CHR ''^'' then cons_piece Bol (parse_pattern cs)
      else if c = CHR ''$'' then cons_piece Eol (parse_pattern cs)
      else if c = CHR ''*'' \<or> c = CHR ''+'' \<or> c = CHR ''?'' then Throws SyntaxError
      else if c = CHR '')'' then Throws SyntaxError
      else if c = CHR ''('' \<or> c = CHR ''['' \<or> c = CHR ''{'' then Outside
      else if c = CHR 0x5C then
        (case cs of
           [] \<Rightarrow> Throws SyntaxError
         | d # ds \<Rightarrow>
             if d = CHR ''b'' then cons_piece (Boundary True) (parse_pattern ds)
             else if d = CHR ''B'' then cons_piece (Boundary False) (parse_pattern ds)
             else
               (case escape_atom d of
                  None \<Rightarrow> Outside
                | Some a \<Rightarrow>
                    cons_piece (Atom a (fst (quantifier ds)))
                      (parse_pattern (drop (snd (quantifier ds)) ds))))
      else
        cons_piece (Atom (if c = CHR ''.'' then Dot else Lit c) (fst (quantifier cs)))
          (parse_pattern (drop (snd (quantifier cs)) cs)))"
  by pat_completeness auto
termination
  by (relation "measure length") auto

definition in_cls :: "cls \<Rightarrow> char \<Rightarrow> bool" where
  "in_cls k c = (case k of Digit \<Rightarrow> is_digit c | Wordchar \<Rightarrow> is_word c | Space \<Rightarrow> is_space c)"

text \<open>\<^verbatim>\<open>.\<close> takes every character but the line terminators.\<close>

definition atom_matches :: "atom \<Rightarrow> char \<Rightarrow> bool" where
  "atom_matches a c =
     (case a of
        Lit l \<Rightarrow> c = l
      | Dot \<Rightarrow> c \<noteq> CHR 0x0A \<and> c \<noteq> CHR 0x0D
      | Cls pos k \<Rightarrow> (in_cls k c = pos))"

text \<open>
  A word boundary lies between the character before the position and the one after
  it when exactly one of them is a word character; the ends of the string are not.
\<close>

definition at_boundary :: "char option \<Rightarrow> string \<Rightarrow> bool" where
  "at_boundary prev s =
     ((case prev of None \<Rightarrow> False | Some p \<Rightarrow> is_word p) \<noteq>
      (case s of [] \<Rightarrow> False | c # _ \<Rightarrow> is_word c))"

text \<open>
  Whether the pieces match at the position with the character \<open>prev\<close> before it and
  the rest \<open>s\<close> of the string after it. Backtracking tries every split, so greedy and
  lazy quantifiers find a match in the same cases.
\<close>

fun match_here :: "piece list \<Rightarrow> char option \<Rightarrow> string \<Rightarrow> bool" where
  "match_here [] prev s = True"
| "match_here (Bol # ps) prev s = (prev = None \<and> match_here ps prev s)"
| "match_here (Eol # ps) prev s = (s = [] \<and> match_here ps prev s)"
| "match_here (Boundary pos # ps) prev s = (at_boundary prev s = pos \<and> match_here ps prev s)"
| "match_here (Atom a Once # ps) prev [] = False"
| "match_here (Atom a Once # ps) prev (c # cs) = (atom_matches a c \<and> match_here ps (Some c) cs)"
| "match_here (Atom a Opt # ps) prev [] = match_here ps prev []"
| "match_here (Atom a Opt # ps) prev (c # cs) =
     ((atom_matches a c \<and> match_here ps (Some c) cs) \<or> match_here ps prev (c # cs))"
| "match_here (Atom a Star # ps) prev [] = match_here ps prev []"
| "match_here (Atom a Star # ps) prev (c # cs) =
     ((atom_matches a c \<and> match_here (Atom a Star # ps) (Some c) cs) \<or> match_here ps prev (c # cs))"
| "match_here (Atom a Plus # ps) prev [] = False"
| "match_here (Atom a Plus # ps) prev (c # cs) =
     (atom_matches a c \<and> match_here (Atom a Star # ps) (Some c) cs)"

text \<open>Without the flag \<^verbatim>\<open>y\<close> a match may start at any position.\<close>

fun match_from :: "piece list list \<Rightarrow> char option \<Rightarrow> string \<Rightarrow> bool" where
  "match_from alts prev [] = list_ex (\<lambda>alt. match_here alt prev []) alts"
| "match_from alts prev (c # cs) =
     (list_ex (\<lambda>alt. match_here alt prev (c # cs)) alts \<or> match_from alts (Some c) cs)"

text \<open>
  \<^verbatim>\<open>s.match(new RegExp(p))\<close>: inside the fragment the constructor throws or the
  pattern is matched; outside it the engine \<open>other\<close> answers.
\<close>

definition RegExp_match :: "regexp_engine \<Rightarrow> regexp_engine" where
  "RegExp_match other p s =
     (case parse_pattern p of
        Pattern alts \<Rightarrow> Inr (match_from alts None s)
      | Throws e \<Rightarrow> Inl e
      | Outside \<Rightarrow> other p s)"

section \<open>Vocabulary of the properties\<close>

subsection \<open>Content sources\<close>

text \<open>
  The source \<open>serves\<close> the pages \<open>ps\<close> from the locator \<open>loc\<close> on: the locator is a
  non-empty URL, the request for it succeeds with the first page as its JSON, and the
  rest is served from that page's \<^verbatim>\<open>next_page\<close> on.
\<close>

fun serves :: "content_source \<Rightarrow> string option \<Rightarrow> page list \<Rightarrow> bool" where
  "serves fetch loc [] = True"
| "serves fetch loc (p # ps) =
     (case loc of
        None \<Rightarrow> False
      | Some url \<Rightarrow>
          url \<noteq> [] \<and>
          (case fetch url of Inl e \<Rightarrow> False | Inr resp \<Rightarrow> ok resp \<and> json resp = Inr p) \<and>
          serves fetch (next_page p) ps)"

text \<open>The locator after the pages: the \<^verbatim>\<open>next_page\<close> of the last one.\<close>

fun final_locator :: "string option \<Rightarrow> page list \<Rightarrow> string option" where
  "final_locator loc [] = loc"
| "final_locator loc (p # ps) = final_locator (next_page p) ps"

text \<open>The URLs under which the pages were requested, in order.\<close>

fun locators :: "string option \<Rightarrow> page list \<Rightarrow> string list" where
  "locators loc [] = []"
| "locators loc (p # ps) = or_empty loc # locators (next_page p) ps"

subsection \<open>Matching\<close>

text \<open>A term hits an article: it occurs in the lowercased title or in the lowercased body.\<close>

definition hits :: "string \<Rightarrow> article \<Rightarrow> bool" where
  "hits term a =
     (includes_s (toLowerCase (or_empty (title a))) term \<or>
      includes_s (toLowerCase (or_empty (body a))) term)"

text \<open>
  The engine builds the pattern of every term and applies it to the title of every
  article without throwing.
\<close>

definition accepts :: "regexp_engine \<Rightarrow> string list \<Rightarrow> article list \<Rightarrow> bool" where
  "accepts rx terms as =
     list_all (\<lambda>a. list_all (\<lambda>term.
        case rx (word_pattern term) (toLowerCase (or_empty (title a))) of
          Inl e \<Rightarrow> False | Inr m \<Rightarrow> True) terms) as"

text \<open>
  The positions, in the list of scored articles, of the articles that match, sorted as
  the handler sorts them; and the positions of the articles that are returned, in the
  order in which they are returned.
\<close>

definition candidates :: "scored list \<Rightarrow> nat list" where
  "candidates items =
     sort_key (\<lambda>i. - int (score (items ! i)))
       (filter (\<lambda>i. allTermsMatch (items ! i)) [0..<length items])"

definition order_of :: "scored list \<Rightarrow> nat list" where
  "order_of items =
     take 10 (sort_key (\<lambda>i. - int (score (items ! i)))
       (filter (\<lambda>i. allTermsMatch (items ! i)) [0..<length items]))"

subsection \<open>The score in the words of the specification\<close>

text \<open>A term without syntax characters of regular expressions.\<close>

definition plain :: "string \<Rightarrow> bool" where
  "plain term = list_all (\<lambda>c. \<not> syntax_char c) term"

text \<open>
  The term itself stands at the position, with a word boundary before it and one after
  it; and the term occurs as a whole word somewhere from the position on.
\<close>

definition word_here :: "string \<Rightarrow> char option \<Rightarrow> string \<Rightarrow> bool" where
  "word_here term prev s =
     (prefix term s \<and> at_boundary prev s \<and>
      at_boundary (if term = [] then prev else Some (last term)) (drop (length term) s))"

fun occurs_as_word :: "string \<Rightarrow> char option \<Rightarrow> string \<Rightarrow> bool" where
  "occurs_as_word term prev [] = word_here term prev []"
| "occurs_as_word term prev (c # cs) =
     (word_here term prev (c # cs) \<or> occurs_as_word term (Some c) cs)"

text \<open>
  The score as the specification words it: over the terms, 10 for a term that occurs in
  the title, 1 for a term that occurs in the body, 5 for a term that occurs in the title
  as a whole word.
\<close>

definition claimed_score :: "string list \<Rightarrow> string \<Rightarrow> string \<Rightarrow> nat" where
  "claimed_score terms title' body' =
     sum_list (map (\<lambda>term.
        (if includes_s title' term then 10 else 0) +
        (if includes_s body' term then 1 else 0) +
        (if occurs_as_word term None title' then 5 else 0)) terms)"

definition literal_pieces :: "string \<Rightarrow> piece list" where
  "literal_pieces term = map (\<lambda>c. Atom (Lit c) Once) term"

section \<open>Sample help centers\<close>

definition help_center :: string where
  "help_center = ''https://help.zendesk.com''"

definition success :: "page \<Rightarrow> exn + http_response" where
  "success p = Inr \<lparr>ok = True, status = 200, json = Inr p\<rparr>"

definition numbered :: "nat \<Rightarrow> article" where
  "numbered k = \<lparr>id_a = k, title = Some ''Article'', body = None, html_url = None\<rparr>"

definition listing :: "nat \<Rightarrow> nat \<Rightarrow> string option \<Rightarrow> page" where
  "listing m n loc = \<lparr>articles = Some (map numbered [m..<n]), next_page = loc\<rparr>"

text \<open>Three pages of 100, 100 and 7 articles.\<close>

definition three_pages :: content_source where
  "three_pages url =
     (if url = first_page help_center then success (listing 0 100 (Some ''page2''))
      else if url = ''page2'' then success (listing 100 200 (Some ''page3''))
      else if url = ''page3'' then success (listing 200 207 None)
      else Inl TypeError)"

text \<open>
  One page of twelve articles: eleven with the same title and no body, then one with
  the same title and a body that contains the word of the title.
\<close>

definition best :: article where
  "best = \<lparr>id_a = 99, title = Some ''Article'', body = Some ''The best article'',
           html_url = None\<rparr>"

definition best_comes_last :: content_source where
  "best_comes_last url =
     (if url = first_page help_center
      then success \<lparr>articles = Some (map numbered [0..<11] @ [best]), next_page = None\<rparr>
      else Inl TypeError)"

definition billing :: article where
  "billing = \<lparr>id_a = 2, title = Some ''Billing FAQ'',
              body = Some ''password reset instructions here'', html_url = Some ''/billing''\<rparr>"

definition reset :: article where
  "reset = \<lparr>id_a = 1, title = Some ''Reset your password'', body = Some ''...'',
            html_url = Some ''/reset''\<rparr>"

definition account :: article where
  "account = \<lparr>id_a = 3, title = Some ''Account'', body = Some ''How to reset the password'',
              html_url = None\<rparr>"

definition shipping :: article where
  "shipping = \<lparr>id_a = 4, title = Some ''Shipping'', body = None, html_url = None\<rparr>"

definition one_page :: content_source where
  "one_page url =
     (if url = first_page help_center
      then success \<lparr>articles = Some [billing, reset, account, shipping], next_page = None\<rparr>
      else Inl TypeError)"

definition cpp_guide :: article where
  "cpp_guide = \<lparr>id_a = 5, title = Some ''C++ guide'', body = Some ''Getting started'',
                html_url = None\<rparr>"

definition node_setup :: article where
  "node_setup = \<lparr>id_a = 6, title = Some ''Node js setup'', body = Some ''Install Node.js first'',
                 html_url = None\<rparr>"

definition developer_page :: content_source where
  "developer_page url =
     (if url = first_page help_center
      then success \<lparr>articles = Some [cpp_guide, node_setup], next_page = None\<rparr>
      else Inl TypeError)"

text \<open>
  The first page arrives with one article, the request for the second page is answered
  with status 503.
\<close>

definition unavailable :: http_response where
  "unavailable = \<lparr>ok = False, status = 503, json = Inl SyntaxError\<rparr>"

definition guide_page :: page where
  "guide_page = \<lparr>articles = Some [cpp_guide], next_page = Some ''page2''\<rparr>"

definition guide_then_unavailable :: content_source where
  "guide_then_unavailable url =
     (if url = first_page help_center then success guide_page
      else if url = ''page2'' then Inr unavailable
      else Inl TypeError)"

section \<open>Lemmas\<close>

subsection \<open>The handler\<close>

lemma faq_search_no_query:
  "q = Absent \<or> q = QOther \<or> q = QString [] \<Longrightarrow>
   faq_search rx fetch base q = Some \<lparr>response = Status400, console = [], requests = []\<rparr>"
  by (auto simp: faq_search_def bad_request_def)

lemma faq_search_loaded:
  "query \<noteq> [] \<Longrightarrow> fetch_all fetch (Some (first_page base)) no_articles = Some (None, st) \<Longrightarrow>
   faq_search rx fetch base (QString query) = Some (respond rx query st)"
  by (simp add: faq_search_def)

lemma respond_scored:
  "score_all rx (searchTerms query) (allArticles st) = Inr items \<Longrightarrow>
   respond rx query st =
   \<lparr>response = Status200 (map project (ranked items)) (length (ranked items)),
    console = logged st, requests = fetched st\<rparr>"
  by (simp add: respond_def Let_def)

lemma faq_search_200:
  assumes "faq_search rx fetch base q = Some out" and "response out = Status200 results n"
  obtains query st items where
    "q = QString query" "query \<noteq> []"
    "fetch_all fetch (Some (first_page base)) no_articles = Some (None, st)"
    "score_all rx (searchTerms query) (allArticles st) = Inr items"
    "results = map project (ranked items)" "n = length results"
    "console out = logged st" "requests out = fetched st"
  using assms
  by (auto simp: faq_search_def respond_def bad_request_def Let_def
      split: query_param.splits if_splits option.splits prod.splits sum.splits)

subsection \<open>The pagination loop\<close>

lemma fetch_all_ends: "fetch_all fetch None st = Some (None, st)"
  by (subst fetch_all.simps) simp

lemma fetch_all_not_ok:
  "u \<noteq> [] \<Longrightarrow> fetch u = Inr resp \<Longrightarrow> \<not> ok resp \<Longrightarrow>
   fetch_all fetch (Some u) st =
   Some (None, st\<lparr>fetched := fetched st @ [u],
                   logged := logged st @ [ArticlesFetchError (status resp)]\<rparr>)"
  by (subst fetch_all.simps) (simp add: Let_def)

text \<open>Over pages that the source serves, the loop appends their articles and goes on.\<close>

lemma fetch_all_serves:
  "serves fetch loc ps \<Longrightarrow>
   fetch_all fetch loc st =
   fetch_all fetch (final_locator loc ps)
     (st\<lparr>allArticles := allArticles st @ concat (map (\<lambda>p. or_empty (articles p)) ps),
         fetched := fetched st @ locators loc ps\<rparr>)"
proof (induction ps arbitrary: loc st)
  case Nil
  then show ?case by simp
next
  case (Cons p ps)
  from Cons.prems obtain url resp where
    loc: "loc = Some url" and url: "url \<noteq> []" and resp: "fetch url = Inr resp"
    and ok: "ok resp" and js: "json resp = Inr p" and rest: "serves fetch (next_page p) ps"
    by (auto split: option.splits sum.splits)
  let ?st1 = "st\<lparr>fetched := fetched st @ [url],
                   allArticles := allArticles st @ or_empty (articles p)\<rparr>"
  have "fetch_all fetch loc st = fetch_all fetch (next_page p) ?st1"
    by (subst fetch_all.simps) (simp add: loc url resp ok js Let_def)
  also have "\<dots> = fetch_all fetch (final_locator (next_page p) ps)
      (?st1\<lparr>allArticles := allArticles ?st1 @ concat (map (\<lambda>p. or_empty (articles p)) ps),
            fetched := fetched ?st1 @ locators (next_page p) ps\<rparr>)"
    by (rule Cons.IH [OF rest])
  finally show ?case by (simp add: loc or_empty_def)
qed

lemma locators_explicit:
  "locators (Some u) (p # ps) = u # map (\<lambda>p. or_empty (next_page p)) (butlast (p # ps))"
  by (induction ps arbitrary: u p) (auto simp: or_empty_def)

subsection \<open>Scoring\<close>

lemma score_terms_verdict:
  "score_terms rx T B terms sc = Inr (s, m) \<Longrightarrow>
   m = (\<forall>t\<in>set terms. includes_s T t \<or> includes_s B t)"
  by (induction terms arbitrary: sc) (auto simp: Let_def split: if_splits sum.splits)

lemma score_terms_returns:
  "\<forall>t\<in>set terms. \<exists>m. rx (word_pattern t) T = Inr m \<Longrightarrow>
   \<exists>s m. score_terms rx T B terms sc = Inr (s, m)"
  by (induction terms arbitrary: sc) (auto simp: Let_def split: if_splits sum.splits)

lemma score_article_verdict:
  assumes "score_article rx terms a = Inr item"
  shows "article item = a \<and> allTermsMatch item = (\<forall>t\<in>set terms. hits t a)"
proof -
  from assms obtain s m where
    sm: "score_terms rx (toLowerCase (or_empty (title a)))
           (toLowerCase (or_empty (body a))) terms 0 = Inr (s, m)"
    and item: "item = \<lparr>article = a, score = s, allTermsMatch = m\<rparr>"
    by (auto simp: score_article_def split: sum.splits prod.splits)
  from score_terms_verdict [OF sm] item show ?thesis
    by (simp add: hits_def)
qed

lemma score_article_returns:
  "\<forall>t\<in>set terms. \<exists>m. rx (word_pattern t) (toLowerCase (or_empty (title a))) = Inr m \<Longrightarrow>
   \<exists>item. score_article rx terms a = Inr item"
  using score_terms_returns [of terms rx "toLowerCase (or_empty (title a))"
      "toLowerCase (or_empty (body a))" 0]
  by (auto simp: score_article_def split: sum.splits)

lemma score_all_items:
  "score_all rx terms as = Inr items \<Longrightarrow>
   list_all2 (\<lambda>a item. score_article rx terms a = Inr item) as items"
  by (induction as arbitrary: items) (auto split: sum.splits)

lemma score_all_returns:
  "accepts rx terms as \<Longrightarrow> \<exists>items. score_all rx terms as = Inr items"
proof (induction as)
  case Nil
  then show ?case by simp
next
  case (Cons a as)
  from Cons.prems
  have "\<forall>t\<in>set terms. \<exists>m. rx (word_pattern t) (toLowerCase (or_empty (title a))) = Inr m"
    by (auto simp: accepts_def list_all_iff split: sum.splits) (metis sum.exhaust)
  then obtain item where "score_article rx terms a = Inr item"
    using score_article_returns by blast
  moreover from Cons obtain items where "score_all rx terms as = Inr items"
    by (auto simp: accepts_def)
  ultimately show ?case by simp
qed

subsection \<open>Ranking\<close>

lemma length_ranked: "length (ranked items) \<le> 10"
  by (simp add: ranked_def)

lemma set_ranked: "set (ranked items) \<subseteq> {item \<in> set items. allTermsMatch item}"
proof -
  have "set (ranked items) \<subseteq>
        set (sort_key (\<lambda>item. - int (score item)) (filter allTermsMatch items))"
    unfolding ranked_def by (rule set_take_subset)
  then show ?thesis by auto
qed

lemma filter_by_index:
  "filter P xs = map (nth xs) (filter (\<lambda>i. P (xs ! i)) [0..<length xs])"
proof -
  have "filter P (map (nth xs) [0..<length xs]) =
        map (nth xs) (filter (P \<circ> nth xs) [0..<length xs])"
    by (rule filter_map)
  then show ?thesis by (simp add: map_nth comp_def)
qed

lemma insort_key_by_index:
  "insort_key f (h k) (map h ks) = map h (insort_key (\<lambda>i. f (h i)) k ks)"
  by (induction ks) auto

lemma sort_key_by_index:
  "sort_key f (map h ks) = map h (sort_key (\<lambda>i. f (h i)) ks)"
  by (induction ks) (auto simp: insort_key_by_index)

text \<open>
  A list that is sorted by key, and in which the elements of each key stand in rising
  order, is sorted by key first and element second.
\<close>

lemma sorted_by_key_then_index:
  fixes g :: "nat \<Rightarrow> int"
  assumes "sorted (map g l)" and "\<And>k. sorted_wrt (<) (filter (\<lambda>y. g y = k) l)"
  shows "sorted_wrt (\<lambda>i j. g i < g j \<or> (g i = g j \<and> i < j)) l"
  using assms
proof (induction l)
  case Nil
  then show ?case by simp
next
  case (Cons x l)
  have later: "g x < g y \<or> (g x = g y \<and> x < y)" if "y \<in> set l" for y
  proof (cases "g x = g y")
    case True
    from Cons.prems(2) [of "g x"] have "\<forall>z\<in>set (filter (\<lambda>y. g y = g x) l). x < z"
      by simp
    with that True show ?thesis by simp
  next
    case False
    with Cons.prems(1) that show ?thesis by fastforce
  qed
  have "sorted_wrt (<) (filter (\<lambda>y. g y = k) l)" for k
    using Cons.prems(2) [of k] by (cases "g x = k") auto
  with Cons.IH Cons.prems(1) have "sorted_wrt (\<lambda>i j. g i < g j \<or> (g i = g j \<and> i < j)) l"
    by simp
  with later show ?case by simp
qed

lemma sort_key_of_rising:
  fixes g :: "nat \<Rightarrow> int"
  assumes "sorted_wrt (<) ks"
  shows "sorted_wrt (\<lambda>i j. g i < g j \<or> (g i = g j \<and> i < j)) (sort_key g ks)"
proof (rule sorted_by_key_then_index)
  show "sorted (map g (sort_key g ks))" by (rule sorted_sort_key)
next
  fix k
  have "filter (\<lambda>y. g y = k) (sort_key g ks) = filter (\<lambda>y. g y = k) ks"
    by (rule sort_key_stable)
  with assms show "sorted_wrt (<) (filter (\<lambda>y. g y = k) (sort_key g ks))"
    by (simp add: sorted_wrt_filter)
qed

lemma sorted_wrt_prefix: "sorted_wrt R xs \<Longrightarrow> sorted_wrt R (take n xs)"
  using sorted_wrt_append [of R "take n xs" "drop n xs"] by simp

lemma ranked_by_index: "ranked items = map (nth items) (order_of items)"
  unfolding ranked_def order_of_def
  by (subst filter_by_index) (simp add: sort_key_by_index take_map)

lemma order_of_sorted:
  "sorted_wrt (\<lambda>i j. score (items ! j) < score (items ! i) \<or>
      (score (items ! i) = score (items ! j) \<and> i < j)) (order_of items)"
proof -
  have "sorted_wrt (<) (filter (\<lambda>i. allTermsMatch (items ! i)) [0..<length items])"
    by (simp add: sorted_wrt_filter)
  then have "sorted_wrt (\<lambda>i j. - int (score (items ! i)) < - int (score (items ! j)) \<or>
      (- int (score (items ! i)) = - int (score (items ! j)) \<and> i < j)) (order_of items)"
    unfolding order_of_def by (intro sorted_wrt_prefix sort_key_of_rising)
  then show ?thesis by simp
qed

lemma order_of_set:
  assumes "i \<in> set (order_of items)"
  shows "i < length items \<and> allTermsMatch (items ! i)"
proof -
  from assms have "i \<in> set (sort_key (\<lambda>i. - int (score (items ! i)))
       (filter (\<lambda>i. allTermsMatch (items ! i)) [0..<length items]))"
    unfolding order_of_def by (rule in_set_takeD)
  then show ?thesis by simp
qed

lemma order_of_candidates: "order_of items = take 10 (candidates items)"
  by (simp add: order_of_def candidates_def)

lemma candidates_set:
  "set (candidates items) = {i. i < length items \<and> allTermsMatch (items ! i)}"
  by (auto simp: candidates_def)

lemma candidates_distinct: "distinct (candidates items)"
  by (simp add: candidates_def)

lemma candidates_sorted:
  "sorted_wrt (\<lambda>i j. score (items ! j) < score (items ! i) \<or>
      (score (items ! i) = score (items ! j) \<and> i < j)) (candidates items)"
proof -
  have "sorted_wrt (<) (filter (\<lambda>i. allTermsMatch (items ! i)) [0..<length items])"
    by (simp add: sorted_wrt_filter)
  then have "sorted_wrt (\<lambda>i j. - int (score (items ! i)) < - int (score (items ! j)) \<or>
      (- int (score (items ! i)) = - int (score (items ! j)) \<and> i < j)) (candidates items)"
    unfolding candidates_def by (rule sort_key_of_rising)
  then show ?thesis by simp
qed

subsection \<open>Plain terms in the fragment of the engine\<close>

lemma quantifier_plain_head:
  "\<not> syntax_char c \<or> c = CHR 0x5C \<Longrightarrow> quantifier (c # cs) = (Once, 0)"
  by (auto simp: quantifier_def syntax_char_def)

lemma parse_plain_then_boundary:
  "plain term \<Longrightarrow>
   parse_pattern (term @ [CHR 0x5C, CHR ''b'']) = Pattern [literal_pieces term @ [Boundary True]]"
proof (induction "term")
  case Nil
  show ?case by (simp add: literal_pieces_def cons_piece_def)
next
  case (Cons c cs)
  from Cons.prems have c: "\<not> syntax_char c" and cs: "plain cs"
    by (simp_all add: plain_def)
  have q: "quantifier (cs @ [CHR 0x5C, CHR ''b'']) = (Once, 0)"
  proof (cases cs)
    case Nil
    then show ?thesis by (simp add: quantifier_plain_head)
  next
    case (Cons d ds)
    with cs have "\<not> syntax_char d" by (simp add: plain_def)
    with Cons show ?thesis by (simp add: quantifier_plain_head)
  qed
  from c have "parse_pattern (c # cs @ [CHR 0x5C, CHR ''b'']) =
      cons_piece (Atom (Lit c) Once) (parse_pattern (cs @ [CHR 0x5C, CHR ''b'']))"
    by (simp add: q syntax_char_def)
  with Cons.IH [OF cs] show ?case
    by (simp add: cons_piece_def literal_pieces_def)
qed

lemma parse_word_pattern:
  "plain term \<Longrightarrow>
   parse_pattern (word_pattern term) =
   Pattern [Boundary True # literal_pieces term @ [Boundary True]]"
  by (simp add: word_pattern_def parse_plain_then_boundary cons_piece_def)

lemma match_here_literal:
  "match_here (literal_pieces term @ ps) prev s =
   (prefix term s \<and>
    match_here ps (if term = [] then prev else Some (last term)) (drop (length term) s))"
proof (induction "term" arbitrary: prev s)
  case Nil
  show ?case by (simp add: literal_pieces_def)
next
  case (Cons c cs)
  show ?case
  proof (cases s)
    case Nil
    then show ?thesis by (simp add: literal_pieces_def)
  next
    case (Cons d ds)
    with Cons.IH [of "Some d" ds] show ?thesis
      by (auto simp: literal_pieces_def atom_matches_def)
  qed
qed

lemma match_here_word:
  "match_here (Boundary True # literal_pieces term @ [Boundary True]) prev s =
   word_here term prev s"
  by (simp add: match_here_literal word_here_def) blast

lemma match_from_word:
  "match_from [Boundary True # literal_pieces term @ [Boundary True]] prev s =
   occurs_as_word term prev s"
  by (induction s arbitrary: prev) (simp_all add: match_here_word del: match_here.simps)

text \<open>
  On a plain term the engine does not throw, and the pattern matches where the term
  stands as a whole word.
\<close>

lemma RegExp_match_plain:
  "plain term \<Longrightarrow>
   RegExp_match other (word_pattern term) s = Inr (occurs_as_word term None s)"
  by (simp add: RegExp_match_def parse_word_pattern match_from_word del: match_from.simps)

text \<open>
  For plain terms that all hit, the loop ends with the score that the specification
  words, added to the score it started from.
\<close>

lemma score_terms_plain:
  assumes "\<forall>t\<in>set terms. plain t"
    and "\<forall>t\<in>set terms. includes_s T t \<or> includes_s B t"
  shows "score_terms (RegExp_match other) T B terms sc =
         Inr (sc + claimed_score terms T B, True)"
  using assms
  by (induction terms arbitrary: sc) (auto simp: RegExp_match_plain claimed_score_def Let_def)

text \<open>The engine accepts the patterns of plain terms, whatever the articles.\<close>

lemma accepts_plain:
  "\<forall>t\<in>set terms. plain t \<Longrightarrow> accepts (RegExp_match other) terms as"
  by (simp add: accepts_def list_all_iff RegExp_match_plain)

subsection \<open>The sample help centers\<close>

lemma one_page_loaded:
  "fetch_all one_page (Some (first_page help_center)) no_articles =
   Some (None, \<lparr>allArticles = [billing, reset, account, shipping], logged = [],
                fetched = [first_page help_center]\<rparr>)"
  by code_simp

lemma three_pages_serves:
  "serves three_pages (Some (first_page help_center))
     [listing 0 100 (Some ''page2''), listing 100 200 (Some ''page3''), listing 200 207 None]"
  by (simp add: three_pages_def success_def first_page_def help_center_def listing_def)

lemma guide_then_unavailable_serves:
  "serves guide_then_unavailable (Some (first_page help_center)) [guide_page]"
  by (simp add: guide_then_unavailable_def success_def first_page_def help_center_def)

section \<open>The claims\<close>

subsection \<open>Query validation\<close>

text \<open>
  Claim C1: a query that is absent, not a string, or that yields no term (white space
  only) fails with InvalidQuery, and no search over the corpus is attempted. The
  handler rejects the absent query, the query that is not a string and the empty
  string (\<open>faq_search_no_query\<close>), but not the query of white space: for the query of
  three spaces it fetches the articles, finds no term, lets every article match with
  score 0 and answers 200 with the articles in the order of the corpus.
\<close>

theorem whitespace_query_is_answered:
  "\<forall>rx. searchTerms ''   '' = [] \<and>
   faq_search rx one_page help_center (QString ''   '') =
   Some \<lparr>response =
           Status200 (map (\<lambda>a. project \<lparr>article = a, score = 0, allTermsMatch = True\<rparr>)
                        [billing, reset, account, shipping]) 4,
         console = [], requests = [first_page help_center]\<rparr>"
  by (intro allI) code_simp

subsection \<open>Terms with syntax characters\<close>

text \<open>
  Claim C2: for a query with a term made of regex metacharacters, such as \<^verbatim>\<open>c++\<close>, the
  search does not throw and matches the term literally, because the term is escaped
  before it is used in the word-boundary pattern. The handler puts the term into the
  pattern as it is: for \<^verbatim>\<open>c++\<close> the pattern is \<^verbatim>\<open>\bc++\b\<close>, the second \<^verbatim>\<open>+\<close> has
  nothing to repeat, the constructor throws a syntax error as soon as an article
  contains the term, and the request is answered with status 500.
\<close>

theorem metacharacter_term_throws:
  "\<forall>other. word_pattern ''c++'' =
     [CHR 0x5C, CHR ''b'', CHR ''c'', CHR ''+'', CHR ''+'', CHR 0x5C, CHR ''b''] \<and>
   RegExp_match other (word_pattern ''c++'') ''c++ guide'' = Inl SyntaxError \<and>
   faq_search (RegExp_match other) developer_page help_center (QString ''c++'') =
   Some \<lparr>response = Status500, console = [FaqSearchError SyntaxError],
         requests = [first_page help_center]\<rparr>"
  by (intro allI) code_simp

subsection \<open>The score\<close>

text \<open>
  Claim C3: for a document that every term hits, the score is the sum over the terms of
  10 for a hit in the title, 1 for a hit in the body and 5 for an occurrence of the
  term as a whole word in the title. For plain terms the loop computes this sum
  (\<open>score_terms_plain\<close>). A term with a syntax character is read as a pattern: for the
  query \<^verbatim>\<open>Node.js\<close> and the article titled \<^verbatim>\<open>Node js setup\<close>, whose body contains
  \<^verbatim>\<open>Node.js\<close>, the term hits the body only and does not occur in the title, so the
  sum is 1; the dot of the pattern takes the space of the title, and the score is 6.
\<close>

theorem unescaped_term_changes_score:
  "\<forall>other. score_article (RegExp_match other) (searchTerms ''Node.js'') node_setup =
     Inr \<lparr>article = node_setup, score = 6, allTermsMatch = True\<rparr> \<and>
   claimed_score (searchTerms ''Node.js'') (toLowerCase ''Node js setup'')
     (toLowerCase ''Install Node.js first'') = 1"
  by (intro allI) code_simp

subsection \<open>Filtering\<close>

text \<open>
  Apart from the exception of the engine, the handler filters as the specification
  says. For a loaded corpus and any engine: at a term that misses, the loop ends with
  the score reached so far and the verdict \<open>False\<close>, whatever the engine and the
  remaining terms; the verdict of a scored article says whether all terms hit it; the
  results of a 200 response are the projections of ranked items, which are scored
  articles of the corpus that all terms hit; and when the engine throws on none of the
  patterns of the terms, the response is 200 with the ranked items, of which there is
  none when every article is missed by some term.
\<close>

lemma matching_articles_when_no_throw:
  assumes "query \<noteq> []"
    and "fetch_all fetch (Some (first_page base)) no_articles = Some (None, st)"
  shows "(\<forall>rx' title' body' t rest sc. \<not> includes_s title' t \<and> \<not> includes_s body' t \<longrightarrow>
            score_terms rx' title' body' (t # rest) sc = Inr (sc, False)) \<and>
         (\<forall>a item. score_article rx (searchTerms query) a = Inr item \<longrightarrow>
            article item = a \<and>
            allTermsMatch item = (\<forall>t\<in>set (searchTerms query). hits t a)) \<and>
         (\<forall>out results n.
            faq_search rx fetch base (QString query) = Some out \<and>
            response out = Status200 results n \<longrightarrow>
            (\<exists>items.
               score_all rx (searchTerms query) (allArticles st) = Inr items \<and>
               results = map project (ranked items) \<and>
               (\<forall>item\<in>set (ranked items).
                  item \<in> set items \<and> article item \<in> set (allArticles st) \<and>
                  (\<forall>t\<in>set (searchTerms query). hits t (article item))))) \<and>
         (accepts rx (searchTerms query) (allArticles st) \<longrightarrow>
            (\<exists>items.
               score_all rx (searchTerms query) (allArticles st) = Inr items \<and>
               list_all2 (\<lambda>a item. score_article rx (searchTerms query) a = Inr item)
                 (allArticles st) items \<and>
               faq_search rx fetch base (QString query) =
                 Some \<lparr>response = Status200 (map project (ranked items)) (length (ranked items)),
                       console = logged st, requests = fetched st\<rparr> \<and>
               ((\<forall>a\<in>set (allArticles st). \<exists>t\<in>set (searchTerms query). \<not> hits t a) \<longrightarrow>
                  ranked items = [])))"
proof -
  let ?terms = "searchTerms query"
  have stop: "\<forall>rx' title' body' t rest sc. \<not> includes_s title' t \<and> \<not> includes_s body' t \<longrightarrow>
      score_terms rx' title' body' (t # rest) sc = Inr (sc, False)"
    by simp
  have verdict: "\<forall>a item. score_article rx ?terms a = Inr item \<longrightarrow>
      article item = a \<and> allTermsMatch item = (\<forall>t\<in>set ?terms. hits t a)"
    using score_article_verdict by blast
  have kept: "item \<in> set items \<and> article item \<in> set (allArticles st) \<and>
      (\<forall>t\<in>set ?terms. hits t (article item))"
    if items: "score_all rx ?terms (allArticles st) = Inr items"
      and item: "item \<in> set (ranked items)" for items item
  proof -
    from item set_ranked [of items] have mem: "item \<in> set items" and m: "allTermsMatch item"
      by auto
    from mem obtain i where i: "i < length items" "items ! i = item"
      by (auto simp: in_set_conv_nth)
    with score_all_items [OF items]
    have "i < length (allArticles st)"
      and "score_article rx ?terms (allArticles st ! i) = Inr item"
      by (auto simp: list_all2_conv_all_nth)
    with verdict m mem show ?thesis by (metis nth_mem)
  qed
  have returned: "\<exists>items. score_all rx ?terms (allArticles st) = Inr items \<and>
      results = map project (ranked items) \<and>
      (\<forall>item\<in>set (ranked items).
         item \<in> set items \<and> article item \<in> set (allArticles st) \<and>
         (\<forall>t\<in>set ?terms. hits t (article item)))"
    if "faq_search rx fetch base (QString query) = Some out"
      and "response out = Status200 results n" for out results n
  proof -
    from that obtain query' st' items where
      "QString query = QString query'"
      "fetch_all fetch (Some (first_page base)) no_articles = Some (None, st')"
      "score_all rx (searchTerms query') (allArticles st') = Inr items"
      "results = map project (ranked items)"
      by (rule faq_search_200)
    with assms(2) have "score_all rx ?terms (allArticles st) = Inr items"
      and "results = map project (ranked items)" by auto
    with kept show ?thesis by blast
  qed
  have accepted: "\<exists>items. score_all rx ?terms (allArticles st) = Inr items \<and>
      list_all2 (\<lambda>a item. score_article rx ?terms a = Inr item) (allArticles st) items \<and>
      faq_search rx fetch base (QString query) =
        Some \<lparr>response = Status200 (map project (ranked items)) (length (ranked items)),
              console = logged st, requests = fetched st\<rparr> \<and>
      ((\<forall>a\<in>set (allArticles st). \<exists>t\<in>set ?terms. \<not> hits t a) \<longrightarrow> ranked items = [])"
    if "accepts rx ?terms (allArticles st)"
  proof -
    from that obtain items where items: "score_all rx ?terms (allArticles st) = Inr items"
      using score_all_returns by blast
    have "ranked items = []" if none: "\<forall>a\<in>set (allArticles st). \<exists>t\<in>set ?terms. \<not> hits t a"
    proof (rule ccontr)
      assume "ranked items \<noteq> []"
      then obtain item where "item \<in> set (ranked items)" by (cases "ranked items") auto
      with kept [OF items] none show False by blast
    qed
    moreover have "faq_search rx fetch base (QString query) =
        Some \<lparr>response = Status200 (map project (ranked items)) (length (ranked items)),
              console = logged st, requests = fetched st\<rparr>"
      using faq_search_loaded [OF assms(1,2)] respond_scored [OF items] by simp
    ultimately show ?thesis using items score_all_items [OF items] by blast
  qed
  from stop verdict returned accepted show ?thesis by blast
qed

text \<open>
  Claim C4: a document that some term misses is marked as not matching and left out of
  the results, and its scoring stops at that term without looking at the remaining
  ones; every result is a document that all terms hit; and when no document matches,
  the search succeeds with no results. The handler does so as long as the engine does
  not throw (\<open>matching_articles_when_no_throw\<close>). For the query \<^verbatim>\<open>c++ zzz\<close> no article
  contains \<^verbatim>\<open>zzz\<close>, so no document matches; the article titled \<^verbatim>\<open>C++ guide\<close> contains
  the first term, the pattern \<^verbatim>\<open>\bc++\b\<close> of that term throws before the second term is
  looked at, the article gets no verdict, and the request is answered with status 500
  instead of 200 with no results.
\<close>

theorem throw_hides_missing_term:
  "\<forall>other. searchTerms ''c++ zzz'' = [''c++'', ''zzz''] \<and>
   \<not> hits ''zzz'' cpp_guide \<and> \<not> hits ''zzz'' node_setup \<and>
   score_article (RegExp_match other) (searchTerms ''c++ zzz'') cpp_guide = Inl SyntaxError \<and>
   faq_search (RegExp_match other) developer_page help_center (QString ''c++ zzz'') =
   Some \<lparr>response = Status500, console = [FaqSearchError SyntaxError],
         requests = [first_page help_center]\<rparr>"
  by (intro allI) code_simp

subsection \<open>Ranking\<close>

text \<open>
  Claim C5: two matched documents with the same score appear in the results in the
  order they have in the corpus, and a document with a higher score comes before one
  with a lower score. Stated over the positions in the corpus: the results of a 200
  response are the projections of the scored articles at the positions \<open>order\<close>, all of
  them matching, and of two positions in \<open>order\<close> the earlier one has the higher score,
  or the same score and is the smaller position.
\<close>

theorem results_sorted_stably:
  assumes "faq_search rx fetch base q = Some out" and "response out = Status200 results n"
  shows "\<exists>query st items order.
      q = QString query \<and>
      fetch_all fetch (Some (first_page base)) no_articles = Some (None, st) \<and>
      list_all2 (\<lambda>a item. score_article rx (searchTerms query) a = Inr item)
        (allArticles st) items \<and>
      results = map (\<lambda>i. project (items ! i)) order \<and>
      (\<forall>i\<in>set order. i < length items \<and> allTermsMatch (items ! i)) \<and>
      sorted_wrt (\<lambda>i j. score (items ! j) < score (items ! i) \<or>
                        (score (items ! i) = score (items ! j) \<and> i < j)) order"
proof -
  from assms obtain query st items where
    q: "q = QString query"
    and st: "fetch_all fetch (Some (first_page base)) no_articles = Some (None, st)"
    and items: "score_all rx (searchTerms query) (allArticles st) = Inr items"
    and results: "results = map project (ranked items)"
    by (rule faq_search_200)
  have "results = map (\<lambda>i. project (items ! i)) (order_of items)"
    by (simp add: results ranked_by_index)
  with q st score_all_items [OF items] order_of_sorted [of items] order_of_set [of _ items]
  show ?thesis by blast
qed

text \<open>
  In the sample, the second article of the corpus has score 30 and comes first; the
  first and the third have score 2 and keep their order.
\<close>

theorem results_sorted_stably_witness:
  "\<forall>other.
   faq_search (RegExp_match other) one_page help_center (QString ''password reset'') =
     Some \<lparr>response = Status200 (map project
              [\<lparr>article = reset, score = 30, allTermsMatch = True\<rparr>,
               \<lparr>article = billing, score = 2, allTermsMatch = True\<rparr>,
               \<lparr>article = account, score = 2, allTermsMatch = True\<rparr>]) 3,
           console = [], requests = [first_page help_center]\<rparr> \<and>
   (\<exists>items order.
      list_all2 (\<lambda>a item. score_article (RegExp_match other) (searchTerms ''password reset'') a = Inr item)
        [billing, reset, account, shipping] items \<and>
      map project
        [\<lparr>article = reset, score = 30, allTermsMatch = True\<rparr>,
         \<lparr>article = billing, score = 2, allTermsMatch = True\<rparr>,
         \<lparr>article = account, score = 2, allTermsMatch = True\<rparr>] =
        map (\<lambda>i. project (items ! i)) order \<and>
      sorted_wrt (\<lambda>i j. score (items ! j) < score (items ! i) \<or>
                        (score (items ! i) = score (items ! j) \<and> i < j)) order)"
  (is "\<forall>other. ?P other")
proof
  fix other
  show "?P other"
  proof -
    let ?out = "\<lparr>response = Status200 (map project
                [\<lparr>article = reset, score = 30, allTermsMatch = True\<rparr>,
                 \<lparr>article = billing, score = 2, allTermsMatch = True\<rparr>,
                 \<lparr>article = account, score = 2, allTermsMatch = True\<rparr>]) 3,
             console = [], requests = [first_page help_center]\<rparr>"
    have run: "faq_search (RegExp_match other) one_page help_center (QString ''password reset'') = Some ?out"
      by code_simp
    have resp: "response ?out = Status200 (map project
                [\<lparr>article = reset, score = 30, allTermsMatch = True\<rparr>,
                 \<lparr>article = billing, score = 2, allTermsMatch = True\<rparr>,
                 \<lparr>article = account, score = 2, allTermsMatch = True\<rparr>]) 3"
      by simp
    from results_sorted_stably [OF run resp] obtain query st items order where
      "fetch_all one_page (Some (first_page help_center)) no_articles = Some (None, st)"
      "list_all2 (\<lambda>a item. score_article (RegExp_match other) (searchTerms query) a = Inr item)
          (allArticles st) items"
      "QString ''password reset'' = QString query"
      "map project
          [\<lparr>article = reset, score = 30, allTermsMatch = True\<rparr>,
           \<lparr>article = billing, score = 2, allTermsMatch = True\<rparr>,
           \<lparr>article = account, score = 2, allTermsMatch = True\<rparr>] =
          map (\<lambda>i. project (items ! i)) order"
      "sorted_wrt (\<lambda>i j. score (items ! j) < score (items ! i) \<or>
                          (score (items ! i) = score (items ! j) \<and> i < j)) order"
      by blast
    with one_page_loaded run show ?thesis by auto
  qed
qed

text \<open>
  Claim C6: the number of returned results is at most 10, for every query and every
  corpus: after filtering and sorting, the first 10 candidates are kept and the rest
  is discarded. Stated over the positions in the corpus: \<open>order\<close> lists every position
  of a matching article once, sorted by falling score and, for the same score, by
  rising position; the results of a 200 response are the projections of the scored
  articles at the first ten positions of \<open>order\<close>, so there are ten of them, or as many
  as there are matching articles.
\<close>

theorem at_most_ten_results:
  assumes "faq_search rx fetch base q = Some out" and "response out = Status200 results n"
  shows "length results \<le> 10 \<and>
    (\<exists>query st items order.
      q = QString query \<and>
      fetch_all fetch (Some (first_page base)) no_articles = Some (None, st) \<and>
      list_all2 (\<lambda>a item. score_article rx (searchTerms query) a = Inr item)
        (allArticles st) items \<and>
      distinct order \<and>
      set order = {i. i < length items \<and> allTermsMatch (items ! i)} \<and>
      sorted_wrt (\<lambda>i j. score (items ! j) < score (items ! i) \<or>
                        (score (items ! i) = score (items ! j) \<and> i < j)) order \<and>
      results = map (\<lambda>i. project (items ! i)) (take 10 order) \<and>
      length results = min 10 (length order))"
proof -
  from assms obtain query st items where
    q: "q = QString query"
    and st: "fetch_all fetch (Some (first_page base)) no_articles = Some (None, st)"
    and items: "score_all rx (searchTerms query) (allArticles st) = Inr items"
    and results: "results = map project (ranked items)"
    by (rule faq_search_200)
  have kept: "results = map (\<lambda>i. project (items ! i)) (take 10 (candidates items))"
    by (simp add: results ranked_by_index order_of_candidates)
  then have "length results = min 10 (length (candidates items))"
    by (simp add: min.commute)
  with q st kept score_all_items [OF items] candidates_distinct [of items]
    candidates_set [of items] candidates_sorted [of items]
  have "\<exists>query st items order.
      q = QString query \<and>
      fetch_all fetch (Some (first_page base)) no_articles = Some (None, st) \<and>
      list_all2 (\<lambda>a item. score_article rx (searchTerms query) a = Inr item)
        (allArticles st) items \<and>
      distinct order \<and>
      set order = {i. i < length items \<and> allTermsMatch (items ! i)} \<and>
      sorted_wrt (\<lambda>i j. score (items ! j) < score (items ! i) \<or>
                        (score (items ! i) = score (items ! j) \<and> i < j)) order \<and>
      results = map (\<lambda>i. project (items ! i)) (take 10 order) \<and>
      length results = min 10 (length order)"
    by blast
  moreover have "length results \<le> 10"
    by (simp add: results length_ranked)
  ultimately show ?thesis by blast
qed

text \<open>
  Twelve articles match the query. The last one of the corpus has the highest score:
  it is returned first, followed by the first nine of the corpus; the tenth and the
  eleventh are left out.
\<close>

theorem at_most_ten_results_witness:
  "\<forall>other.
     faq_search (RegExp_match other) best_comes_last help_center (QString ''article'') =
       Some \<lparr>response = Status200
                (\<lparr>id_r = 99, title_r = Some ''Article'', body_r = ''The best article'',
                  html_url_r = None\<rparr> #
                 map (\<lambda>k. \<lparr>id_r = k, title_r = Some ''Article'', body_r = [],
                            html_url_r = None\<rparr>) [0..<9]) 10,
             console = [], requests = [first_page help_center]\<rparr> \<and>
     length (\<lparr>id_r = 99, title_r = Some ''Article'', body_r = ''The best article'',
               html_url_r = None\<rparr> #
             map (\<lambda>k. \<lparr>id_r = k, title_r = Some ''Article'', body_r = [],
                        html_url_r = None\<rparr>) [0..<9]) \<le> 10"
proof
  fix other
  let ?results = "\<lparr>id_r = 99, title_r = Some ''Article'', body_r = ''The best article'',
                    html_url_r = None\<rparr> #
                  map (\<lambda>k. \<lparr>id_r = k, title_r = Some ''Article'', body_r = [],
                             html_url_r = None\<rparr>) [0..<9]"
  let ?out = "\<lparr>response = Status200 ?results 10, console = [],
               requests = [first_page help_center]\<rparr>"
  have run: "faq_search (RegExp_match other) best_comes_last help_center (QString ''article'') =
      Some ?out"
    by code_simp
  have resp: "response ?out = Status200 ?results 10" by simp
  from at_most_ten_results [OF run resp] have "length ?results \<le> 10" by (rule conjunct1)
  with run show "faq_search (RegExp_match other) best_comes_last help_center (QString ''article'') =
      Some ?out \<and> length ?results \<le> 10" by (rule conjI)
qed

subsection \<open>Loading\<close>

text \<open>
  Claim C7: the loader starts at the first page (100 articles a page), follows the
  locator of each response, appends the articles of each page in the order of arrival,
  and stops when the locator is absent; three pages of 100, 100 and 7 articles give a
  corpus of 207 articles in page order. Stated for a source that serves the pages \<open>ps\<close>
  from the first page on, the last of them without a locator: the loop ends without an
  exception, with the articles of the pages in order, nothing logged, and one request
  for the first page followed by one for the locator of each page but the last.
\<close>

theorem loader_follows_locators:
  assumes "serves fetch (Some (first_page base)) ps"
    and "final_locator (Some (first_page base)) ps = None"
  shows "fetch_all fetch (Some (first_page base)) no_articles =
         Some (None, \<lparr>allArticles = concat (map (\<lambda>p. or_empty (articles p)) ps),
                      logged = [],
                      fetched = first_page base #
                        map (\<lambda>p. or_empty (next_page p)) (butlast ps)\<rparr>) \<and>
         first_page base = base @ ''/api/v2/help_center/en-gb/articles.json?per_page=100''"
proof -
  from assms(2) obtain p ps' where ps: "ps = p # ps'" by (cases ps) auto
  have "fetch_all fetch (Some (first_page base)) no_articles =
         Some (None, \<lparr>allArticles = concat (map (\<lambda>p. or_empty (articles p)) ps),
                      logged = [],
                      fetched = first_page base #
                        map (\<lambda>p. or_empty (next_page p)) (butlast ps)\<rparr>)"
    unfolding fetch_all_serves [OF assms(1)] assms(2) fetch_all_ends
    by (simp add: no_articles_def ps locators_explicit del: locators.simps)
  then show ?thesis by (simp add: first_page_def)
qed

theorem loader_follows_locators_witness:
  "serves three_pages (Some (first_page help_center))
     [listing 0 100 (Some ''page2''), listing 100 200 (Some ''page3''), listing 200 207 None] \<and>
   final_locator (Some (first_page help_center))
     [listing 0 100 (Some ''page2''), listing 100 200 (Some ''page3''), listing 200 207 None] = None \<and>
   fetch_all three_pages (Some (first_page help_center)) no_articles =
     Some (None, \<lparr>allArticles = map numbered [0..<207], logged = [],
                  fetched = [first_page help_center, ''page2'', ''page3'']\<rparr>) \<and>
   length (map numbered [0..<207]) = 207"
proof -
  let ?ps = "[listing 0 100 (Some ''page2''), listing 100 200 (Some ''page3''), listing 200 207 None]"
  have "[0..<207] = [0..<100] @ [100..<200] @ [200..<207::nat]"
    using upt_add_eq_append [of 0 100 107] upt_add_eq_append [of 100 100 7] by simp
  then have arts: "concat (map (\<lambda>p. or_empty (articles p)) ?ps) = map numbered [0..<207]"
    by (simp only: listing_def or_empty_def map_append concat.simps list.map page.simps
        option.case append_Nil2)
  have urls: "first_page help_center # map (\<lambda>p. or_empty (next_page p)) (butlast ?ps) =
      [first_page help_center, ''page2'', ''page3'']"
    by (simp add: listing_def or_empty_def)
  have fin: "final_locator (Some (first_page help_center)) ?ps = None"
    by (simp add: listing_def)
  have "fetch_all three_pages (Some (first_page help_center)) no_articles =
     Some (None, \<lparr>allArticles = map numbered [0..<207], logged = [],
                  fetched = [first_page help_center, ''page2'', ''page3'']\<rparr>)"
    using loader_follows_locators [OF three_pages_serves fin, THEN conjunct1]
    unfolding arts urls .
  moreover have "length (map numbered [0..<207]) = 207" by simp
  ultimately show ?thesis using three_pages_serves fin by blast
qed

text \<open>
  Apart from the exception of the engine, a failed page leaves the search with the
  articles fetched so far. For a source that serves the pages \<open>ps\<close> and answers the
  request for the next locator \<open>u\<close> with a response that is not ok: the loop ends
  without an exception, with the articles of \<open>ps\<close>, the request for \<open>u\<close> as the last one
  and the status in the log; the handler answers as it answers for any loader state
  with these articles; and when the engine throws on none of the patterns, the response
  is 200 with the ranked articles of \<open>ps\<close>.
\<close>

lemma partial_corpus_when_no_throw:
  assumes "query \<noteq> []"
    and "serves fetch (Some (first_page base)) ps"
    and "final_locator (Some (first_page base)) ps = Some u"
    and "u \<noteq> []" and "fetch u = Inr resp" and "\<not> ok resp"
  shows "\<exists>st.
      fetch_all fetch (Some (first_page base)) no_articles = Some (None, st) \<and>
      allArticles st = concat (map (\<lambda>p. or_empty (articles p)) ps) \<and>
      fetched st = locators (Some (first_page base)) ps @ [u] \<and>
      logged st = [ArticlesFetchError (status resp)] \<and>
      faq_search rx fetch base (QString query) = Some (respond rx query st) \<and>
      (\<forall>st'. allArticles st' = allArticles st \<longrightarrow>
         response (respond rx query st') = response (respond rx query st)) \<and>
      (accepts rx (searchTerms query) (allArticles st) \<longrightarrow>
         (\<exists>items. score_all rx (searchTerms query) (allArticles st) = Inr items \<and>
            respond rx query st =
              \<lparr>response = Status200 (map project (ranked items)) (length (ranked items)),
               console = [ArticlesFetchError (status resp)],
               requests = locators (Some (first_page base)) ps @ [u]\<rparr>))"
proof -
  define st where "st = \<lparr>allArticles = concat (map (\<lambda>p. or_empty (articles p)) ps),
      logged = [ArticlesFetchError (status resp)],
      fetched = locators (Some (first_page base)) ps @ [u]\<rparr>"
  have loaded: "fetch_all fetch (Some (first_page base)) no_articles = Some (None, st)"
    unfolding fetch_all_serves [OF assms(2)] assms(3)
    using assms(4,5,6) by (simp add: fetch_all_not_ok st_def no_articles_def)
  have "response (respond rx query st') = response (respond rx query st)"
    if "allArticles st' = allArticles st" for st'
    using that by (simp add: respond_def Let_def split: sum.splits)
  moreover have "\<exists>items. score_all rx (searchTerms query) (allArticles st) = Inr items \<and>
            respond rx query st =
              \<lparr>response = Status200 (map project (ranked items)) (length (ranked items)),
               console = [ArticlesFetchError (status resp)],
               requests = locators (Some (first_page base)) ps @ [u]\<rparr>"
    if "accepts rx (searchTerms query) (allArticles st)"
  proof -
    from that obtain items where
      items: "score_all rx (searchTerms query) (allArticles st) = Inr items"
      using score_all_returns by blast
    from respond_scored [OF items] items show ?thesis by (auto simp: st_def)
  qed
  moreover have "allArticles st = concat (map (\<lambda>p. or_empty (articles p)) ps)"
    "fetched st = locators (Some (first_page base)) ps @ [u]"
    "logged st = [ArticlesFetchError (status resp)]"
    by (simp_all add: st_def)
  moreover note loaded faq_search_loaded [OF assms(1) loaded]
  ultimately show ?thesis by blast
qed

text \<open>
  Claim C8: when a page request is answered with a status that is not a success, the
  pagination stops at once and the search goes on over the articles of the pages
  fetched so far; the failure is logged and not passed on to the caller, and the search
  still returns its ranked results, a failed page never fails the request. The handler
  does so as long as the engine does not throw (\<open>partial_corpus_when_no_throw\<close>). When
  the first page holds the article titled \<^verbatim>\<open>C++ guide\<close>, the request for the second page
  is answered with status 503 and the query is \<^verbatim>\<open>c++\<close>, the loop stops and logs the
  status, the search goes on over the one article, the pattern \<^verbatim>\<open>\bc++\b\<close> throws, and
  the request is answered with status 500 and no results.
\<close>

theorem failed_page_then_throw:
  "\<forall>other. serves guide_then_unavailable (Some (first_page help_center)) [guide_page] \<and>
   final_locator (Some (first_page help_center)) [guide_page] = Some ''page2'' \<and>
   guide_then_unavailable ''page2'' = Inr unavailable \<and> \<not> ok unavailable \<and>
   faq_search (RegExp_match other) guide_then_unavailable help_center (QString ''c++'') =
   Some \<lparr>response = Status500,
         console = [ArticlesFetchError 503, FaqSearchError SyntaxError],
         requests = [first_page help_center, ''page2'']\<rparr>"
  by (intro allI) code_simp

subsection \<open>The response\<close>

text \<open>
  Claim C9: every document that is returned is projected to its id, title, body and
  URL; the body is the empty string when the article has none, never absent, and the
  id, the title and the URL are those of the article. The body of a result is a string
  by its type; the results of a 200 response are, position by position, the ranked
  items with the fields below.
\<close>

theorem projection_defaults_body:
  assumes "faq_search rx fetch base q = Some out" and "response out = Status200 results n"
  shows "\<exists>query st items.
      q = QString query \<and>
      fetch_all fetch (Some (first_page base)) no_articles = Some (None, st) \<and>
      score_all rx (searchTerms query) (allArticles st) = Inr items \<and>
      length results = length (ranked items) \<and>
      (\<forall>i<length results.
         id_r (results ! i) = id_a (article (ranked items ! i)) \<and>
         title_r (results ! i) = title (article (ranked items ! i)) \<and>
         html_url_r (results ! i) = html_url (article (ranked items ! i)) \<and>
         body_r (results ! i) =
           (case body (article (ranked items ! i)) of None \<Rightarrow> [] | Some b \<Rightarrow> b))"
proof -
  from assms obtain query st items where
    "q = QString query"
    "fetch_all fetch (Some (first_page base)) no_articles = Some (None, st)"
    "score_all rx (searchTerms query) (allArticles st) = Inr items"
    "results = map project (ranked items)"
    by (rule faq_search_200)
  then show ?thesis
    by (intro exI [of _ query] exI [of _ st] exI [of _ items])
      (simp add: project_def or_empty_def)
qed

text \<open>The article on shipping has no body and no URL; its result has the empty body.\<close>

theorem projection_defaults_body_witness:
  "\<forall>other.
   faq_search (RegExp_match other) one_page help_center (QString ''Shipping'') =
     Some \<lparr>response = Status200
              [\<lparr>id_r = 4, title_r = Some ''Shipping'', body_r = [], html_url_r = None\<rparr>] 1,
           console = [], requests = [first_page help_center]\<rparr> \<and>
   (\<exists>items.
      score_all (RegExp_match other) (searchTerms ''Shipping'') [billing, reset, account, shipping] =
        Inr items \<and>
      length (ranked items) = 1 \<and>
      body (article (ranked items ! 0)) = None \<and>
      body_r ([\<lparr>id_r = 4, title_r = Some ''Shipping'', body_r = [], html_url_r = None\<rparr>] ! 0) = [])"
  (is "\<forall>other. ?P other")
proof
  fix other
  show "?P other"
  proof -
    let ?results = "[\<lparr>id_r = 4, title_r = Some ''Shipping'', body_r = [], html_url_r = None\<rparr>]"
    let ?out = "\<lparr>response = Status200 ?results 1, console = [],
                 requests = [first_page help_center]\<rparr>"
    have run: "faq_search (RegExp_match other) one_page help_center (QString ''Shipping'') = Some ?out"
      by code_simp
    have resp: "response ?out = Status200 ?results 1" by simp
    from projection_defaults_body [OF run resp] obtain query st items where
      q: "QString ''Shipping'' = QString query"
      and st: "fetch_all one_page (Some (first_page help_center)) no_articles = Some (None, st)"
      and items: "score_all (RegExp_match other) (searchTerms query) (allArticles st) = Inr items"
      and len: "length ?results = length (ranked items)"
      and fields: "\<forall>i<length ?results.
           id_r (?results ! i) = id_a (article (ranked items ! i)) \<and>
           title_r (?results ! i) = title (article (ranked items ! i)) \<and>
           html_url_r (?results ! i) = html_url (article (ranked items ! i)) \<and>
           body_r (?results ! i) =
             (case body (article (ranked items ! i)) of None \<Rightarrow> [] | Some b \<Rightarrow> b)"
      by blast
    from st one_page_loaded have arts: "allArticles st = [billing, reset, account, shipping]"
      by auto
    have "score_all (RegExp_match other) (searchTerms ''Shipping'') [billing, reset, account, shipping] =
        Inr [\<lparr>article = billing, score = 0, allTermsMatch = False\<rparr>,
             \<lparr>article = reset, score = 0, allTermsMatch = False\<rparr>,
             \<lparr>article = account, score = 0, allTermsMatch = False\<rparr>,
             \<lparr>article = shipping, score = 15, allTermsMatch = True\<rparr>]"
      by code_simp
    with items q arts
    have scored: "score_all (RegExp_match other) (searchTerms ''Shipping'')
          [billing, reset, account, shipping] = Inr items"
      and "items = [\<lparr>article = billing, score = 0, allTermsMatch = False\<rparr>,
             \<lparr>article = reset, score = 0, allTermsMatch = False\<rparr>,
             \<lparr>article = account, score = 0, allTermsMatch = False\<rparr>,
             \<lparr>article = shipping, score = 15, allTermsMatch = True\<rparr>]"
      by simp_all
    then have top: "ranked items = [\<lparr>article = shipping, score = 15, allTermsMatch = True\<rparr>]"
      by (simp add: ranked_def)
    have "length (ranked items) = 1" "body (article (ranked items ! 0)) = None"
      by (simp_all add: top shipping_def)
    moreover have "body_r (?results ! 0) = []" by simp
    ultimately show ?thesis using run scored by blast
  qed
qed

text \<open>
  Claim C10: in every successful response the count is the length of the list of
  results; with no matching document the results are empty and the count is 0.
\<close>

theorem count_is_length:
  assumes "faq_search rx fetch base q = Some out" and "response out = Status200 results n"
  shows "n = length results"
  using assms by (rule faq_search_200)

text \<open>No article contains the word of the query: the response is 200 with no results.\<close>

theorem count_is_length_witness:
  "\<forall>rx.
   faq_search rx one_page help_center (QString ''invoice'') =
     Some \<lparr>response = Status200 [] 0, console = [], requests = [first_page help_center]\<rparr> \<and>
   (0::nat) = length ([] :: result list)"
  (is "\<forall>rx. ?P rx")
proof
  fix rx
  show "?P rx"
  proof -
    let ?out = "\<lparr>response = Status200 [] 0, console = [], requests = [first_page help_center]\<rparr>"
    have run: "faq_search rx one_page help_center (QString ''invoice'') = Some ?out"
      by code_simp
    have resp: "response ?out = Status200 [] 0" by simp
    from count_is_length [OF run resp] run show ?thesis by simp
  qed
qed

end
